theory Spec2Isabelle
  imports Complex_Main
begin

section \<open>Time scaling of swerve-drive commands\<close>

text \<open>
  A shallow embedding of \<^verbatim>\<open>swervedrive/icr/timescaler.py\<close>: the class
  \<^verbatim>\<open>TimeScaler\<close> with its constructor and its three methods, and the module-level
  function \<^verbatim>\<open>in_range\<close>.

  Numbers. The source computes with Python floats (and with the ints \<^verbatim>\<open>0\<close> and
  \<^verbatim>\<open>1\<close>, which Python compares and mixes with floats by value). The embedding
  idealises them as the reals: \<open>+\<close>, \<open>*\<close>, \<open>/\<close>, \<open>max\<close>, \<open>min\<close> and the comparisons are
  the exact ones, there is no rounding, no infinity and no NaN. The literal
  \<^verbatim>\<open>1e-2\<close> is the real \<open>1/100\<close>. The concrete bounds, samples and results used
  below are dyadic rationals of small size, so that the evaluation shown is also the one
  of IEEE doubles; the one exception is the command \<open>1/200\<close> (the \<^verbatim>\<open>0.005\<close> of the
  specification), which is only ever compared with the tolerance.
  The parameters are annotated \<^verbatim>\<open>np.ndarray\<close>, but \<^verbatim>\<open>math.isclose\<close> and the
  \<^verbatim>\<open>and\<close> of the first test only accept scalars: the commands are scalars here.

  Errors. What Python raises is a value of \<open>py_error\<close>, and a method that can raise
  returns \<open>py_error + 'a\<close> with \<open>Inl\<close> for the exception.
\<close>

subsection \<open>Errors and the operations of Python the source calls\<close>

datatype py_error = IndexError | ZeroDivisionError | AttributeError

text \<open>Sequencing of two computations that may raise: the first exception wins.\<close>

definition bind_result :: "py_error + 'a \<Rightarrow> ('a \<Rightarrow> py_error + 'b) \<Rightarrow> py_error + 'b" where
  "bind_result m f = (case m of Inl e \<Rightarrow> Inl e | Inr v \<Rightarrow> f v)"

text \<open>
  \<^verbatim>\<open>rng[i]\<close> on a Python list, for the indices the source uses (the constants
  \<^verbatim>\<open>0\<close> and \<^verbatim>\<open>1\<close>): an index beyond the end raises IndexError.
\<close>

definition getitem :: "real list \<Rightarrow> nat \<Rightarrow> py_error + real" where
  "getitem rng i = (if i < length rng then Inr (rng ! i) else Inl IndexError)"

text \<open>\<^verbatim>\<open>a / b\<close> on Python numbers: a zero divisor raises ZeroDivisionError.\<close>

definition py_div :: "real \<Rightarrow> real \<Rightarrow> py_error + real" where
  "py_div a b = (if b = 0 then Inl ZeroDivisionError else Inr (a / b))"

text \<open>
  \<^verbatim>\<open>x and y\<close> on booleans: \<^verbatim>\<open>y\<close> is evaluated only when \<^verbatim>\<open>x\<close> is true,
  so an exception of \<^verbatim>\<open>y\<close> is not raised when \<^verbatim>\<open>x\<close> is false.
\<close>

definition py_and :: "py_error + bool \<Rightarrow> py_error + bool \<Rightarrow> py_error + bool" where
  "py_and x y = (case x of Inl e \<Rightarrow> Inl e | Inr b \<Rightarrow> (if b then y else Inr False))"

text \<open>
  \<^verbatim>\<open>math.isclose(a, b, rel_tol=..., abs_tol=...)\<close> of the Python standard library,
  which is not part of the repository; after its documentation:
  \<^verbatim>\<open>abs(a-b) <= max(rel_tol * max(abs(a), abs(b)), abs_tol)\<close>. The source leaves
  \<^verbatim>\<open>rel_tol\<close> at its default \<^verbatim>\<open>1e-09\<close>.
\<close>

definition isclose :: "real \<Rightarrow> real \<Rightarrow> real \<Rightarrow> real \<Rightarrow> bool" where
  "isclose a b rel_tol abs_tol = (\<bar>a - b\<bar> \<le> max (rel_tol * max \<bar>a\<bar> \<bar>b\<bar>) abs_tol)"

definition default_rel_tol :: real where
  "default_rel_tol = 1 / 10 ^ 9"

subsection \<open>The class TimeScaler\<close>

text \<open>
  The three bound lists are set by the constructor. The attributes \<^verbatim>\<open>s_dot\<close> and
  \<^verbatim>\<open>s_2dot\<close> do not exist until \<^verbatim>\<open>compute_scaling_parameters\<close> assigns them: a
  missing attribute is \<open>None\<close>.
\<close>

record TimeScaler =
  beta_dot_b :: "real list"
  beta_2dot_b :: "real list"
  phi_2dot_b :: "real list"
  s_dot :: "real option"
  s_2dot :: "real option"

text \<open>\<^verbatim>\<open>TimeScaler.__init__\<close> (lines 7 to 20).\<close>

definition init :: "real list \<Rightarrow> real list \<Rightarrow> real list \<Rightarrow> TimeScaler" where
  "init beta_dot_bounds beta_2dot_bounds phi_2dot_bounds =
     \<lparr>beta_dot_b = beta_dot_bounds, beta_2dot_b = beta_2dot_bounds,
      phi_2dot_b = phi_2dot_bounds, s_dot = None, s_2dot = None\<rparr>"

text \<open>
  \<^verbatim>\<open>in_range\<close> (lines 115 to 117): the chained comparison
  \<^verbatim>\<open>rng[0] <= value <= rng[1]\<close> reads \<^verbatim>\<open>rng[1]\<close> only when the first comparison
  holds.
\<close>

definition in_range :: "real \<Rightarrow> real list \<Rightarrow> py_error + bool" where
  "in_range val rng =
     bind_result (getitem rng 0) (\<lambda>lo.
       if lo \<le> val then bind_result (getitem rng 1) (\<lambda>hi. Inr (val \<le> hi))
       else Inr False)"

text \<open>
  The body of the first \<^verbatim>\<open>if not ignore_beta\<close> (lines 52 to 58): the pair
  \<open>(ds_lower, ds_upper)\<close> goes in and comes out tightened.
\<close>

definition beta_rate_block :: "TimeScaler \<Rightarrow> real \<Rightarrow> real \<times> real \<Rightarrow> py_error + real \<times> real" where
  "beta_rate_block self dbeta ds =
     (let (ds_lower, ds_upper) = ds;
          (lower, upper) = (if dbeta < 0 then (1, 0) else (0, 1))
      in bind_result (getitem (beta_2dot_b self) lower) (\<lambda>bl.
         bind_result (py_div bl dbeta) (\<lambda>ql.
         bind_result (getitem (beta_2dot_b self) upper) (\<lambda>bu.
         bind_result (py_div bu dbeta) (\<lambda>qu.
           Inr (max ds_lower ql, min ds_upper qu))))))"

text \<open>The body of \<^verbatim>\<open>if not ignore_phi\<close> (lines 60 to 65).\<close>

definition phi_rate_block :: "TimeScaler \<Rightarrow> real \<Rightarrow> real \<times> real \<Rightarrow> py_error + real \<times> real" where
  "phi_rate_block self dphi_dot ds =
     (let (ds_lower, ds_upper) = ds;
          (lower, upper) = (if dphi_dot < 0 then (1, 0) else (0, 1))
      in bind_result (getitem (phi_2dot_b self) lower) (\<lambda>pl.
         bind_result (py_div pl dphi_dot) (\<lambda>ql.
         bind_result (getitem (phi_2dot_b self) upper) (\<lambda>pu.
         bind_result (py_div pu dphi_dot) (\<lambda>qu.
           Inr (max ds_lower ql, min ds_upper qu))))))"

text \<open>
  The body of the second \<^verbatim>\<open>if not ignore_beta\<close> (lines 68 to 78): it reads
  \<open>ds_upper\<close> as left by the two blocks before it, and tightens
  \<open>(d2s_lower, d2s_upper)\<close>.
\<close>

definition beta_accel_block ::
  "TimeScaler \<Rightarrow> real \<Rightarrow> real \<Rightarrow> real \<Rightarrow> real \<times> real \<Rightarrow> py_error + real \<times> real" where
  "beta_accel_block self dbeta d2beta ds_upper d2s =
     (let (d2s_lower, d2s_upper) = d2s;
          s_dot = ds_upper;
          (lower, upper) = (if dbeta < 0 then (1, 0) else (0, 1))
      in bind_result (getitem (beta_2dot_b self) lower) (\<lambda>bl.
         bind_result (py_div (bl - d2beta * s_dot ^ 2) dbeta) (\<lambda>ql.
         bind_result (getitem (beta_2dot_b self) upper) (\<lambda>bu.
         bind_result (py_div (bu - d2beta * s_dot ^ 2) dbeta) (\<lambda>qu.
           Inr (max d2s_lower ql, min d2s_upper qu))))))"

text \<open>
  \<^verbatim>\<open>TimeScaler.compute_scaling_bounds\<close> (lines 22 to 80). It assigns nothing to
  \<^verbatim>\<open>self\<close>, so it returns its result only.
\<close>

definition compute_scaling_bounds ::
  "TimeScaler \<Rightarrow> real \<Rightarrow> real \<Rightarrow> real \<Rightarrow> py_error + real \<times> real \<times> real \<times> real" where
  "compute_scaling_bounds self dbeta d2beta dphi_dot =
     bind_result
       (py_and (in_range dbeta (beta_dot_b self))
          (py_and (in_range d2beta (beta_2dot_b self))
             (in_range dphi_dot (phi_2dot_b self))))
       (\<lambda>satisfied.
         if satisfied then Inr (0, 1, 0, 1)
         else
           let ignore_beta = isclose dbeta 0 default_rel_tol (1 / 100);
               ignore_phi = isclose dphi_dot 0 default_rel_tol (1 / 100);
               ds = (0, 1);
               d2s = (0, 1)
           in bind_result
                (if \<not> ignore_beta then beta_rate_block self dbeta ds else Inr ds) (\<lambda>ds.
              bind_result
                (if \<not> ignore_phi then phi_rate_block self dphi_dot ds else Inr ds) (\<lambda>ds.
              bind_result
                (if \<not> ignore_beta then beta_accel_block self dbeta d2beta (snd ds) d2s
                 else Inr d2s) (\<lambda>d2s.
              Inr (fst ds, snd ds, fst d2s, snd d2s)))))"

text \<open>
  \<^verbatim>\<open>TimeScaler.compute_scaling_parameters\<close> (lines 82 to 95): two assignments to
  \<^verbatim>\<open>self\<close>, no test of its arguments, no result. The embedding returns the object
  after the call.
\<close>

definition compute_scaling_parameters ::
  "TimeScaler \<Rightarrow> real \<Rightarrow> real \<Rightarrow> real \<Rightarrow> real \<Rightarrow> TimeScaler" where
  "compute_scaling_parameters self ds_lower ds_upper d2s_lower d2s_upper =
     self\<lparr>s_dot := Some ds_upper, s_2dot := Some d2s_upper\<rparr>"

text \<open>
  \<^verbatim>\<open>TimeScaler.scale_motion\<close> (lines 97 to 112): it reads \<^verbatim>\<open>self.s_dot\<close> first
  and \<^verbatim>\<open>self.s_2dot\<close> after it; reading an attribute that was never assigned raises
  AttributeError. It assigns nothing to \<^verbatim>\<open>self\<close>.
\<close>

definition scale_motion ::
  "TimeScaler \<Rightarrow> real \<Rightarrow> real \<Rightarrow> real \<Rightarrow> py_error + real \<times> real \<times> real" where
  "scale_motion self dbeta d2beta dphi_dot =
     (case s_dot self of
        None \<Rightarrow> Inl AttributeError
      | Some sd \<Rightarrow>
          (case s_2dot self of
             None \<Rightarrow> Inl AttributeError
           | Some sdd \<Rightarrow>
               Inr (dbeta * sd, d2beta * sd ^ 2 + dbeta * sdd, dphi_dot * sd)))"

subsection \<open>The program as its callers see it\<close>

text \<open>
  One call of a method of a \<^verbatim>\<open>TimeScaler\<close> object, with its arguments, and the
  object after the call. Only \<^verbatim>\<open>compute_scaling_parameters\<close> assigns to
  \<^verbatim>\<open>self\<close>; the two other methods leave the object as it was, whether they return
  or raise.
\<close>

datatype call =
    Compute_scaling_bounds real real real
  | Compute_scaling_parameters real real real real
  | Scale_motion real real real

primrec after_call :: "TimeScaler \<Rightarrow> call \<Rightarrow> TimeScaler" where
  "after_call self (Compute_scaling_bounds dbeta d2beta dphi_dot) = self"
| "after_call self (Compute_scaling_parameters ds_lower ds_upper d2s_lower d2s_upper) =
     compute_scaling_parameters self ds_lower ds_upper d2s_lower d2s_upper"
| "after_call self (Scale_motion dbeta d2beta dphi_dot) = self"

primrec is_selection :: "call \<Rightarrow> bool" where
  "is_selection (Compute_scaling_bounds dbeta d2beta dphi_dot) = False"
| "is_selection (Compute_scaling_parameters ds_lower ds_upper d2s_lower d2s_upper) = True"
| "is_selection (Scale_motion dbeta d2beta dphi_dot) = False"

subsection \<open>The specification's vocabulary\<close>

text \<open>
  The definitions of this subsection follow the words of the specification, not the
  source; the theorems below compare the source's functions with them.

  A bound configuration (ActuatorBounds) is three intervals \<open>[lo, hi]\<close>, each a list of
  two numbers with \<open>lo \<le> hi\<close>. The universal theorems below ask less of an object:
  that each of its three lists has the two elements the source reads.
\<close>

definition has_bound_pairs :: "TimeScaler \<Rightarrow> bool" where
  "has_bound_pairs self =
     (2 \<le> length (beta_dot_b self) \<and> 2 \<le> length (beta_2dot_b self) \<and>
      2 \<le> length (phi_2dot_b self))"

definition valid_interval :: "real list \<Rightarrow> bool" where
  "valid_interval rng = (length rng = 2 \<and> rng ! 0 \<le> rng ! 1)"

definition actuator_bounds :: "TimeScaler \<Rightarrow> bool" where
  "actuator_bounds self =
     (valid_interval (beta_dot_b self) \<and> valid_interval (beta_2dot_b self) \<and>
      valid_interval (phi_2dot_b self))"

text \<open>
  Step 1 of section 4.1: \<open>dbeta\<close> lies within betaDotBounds, \<open>d2beta\<close> within
  betaAccelBounds and \<open>dphiDot\<close> within phiAccelBounds, membership being inclusive.
\<close>

definition commands_within_bounds :: "TimeScaler \<Rightarrow> real \<Rightarrow> real \<Rightarrow> real \<Rightarrow> bool" where
  "commands_within_bounds self dbeta d2beta dphi_dot =
     (beta_dot_b self ! 0 \<le> dbeta \<and> dbeta \<le> beta_dot_b self ! 1 \<and>
      beta_2dot_b self ! 0 \<le> d2beta \<and> d2beta \<le> beta_2dot_b self ! 1 \<and>
      phi_2dot_b self ! 0 \<le> dphi_dot \<and> dphi_dot \<le> phi_2dot_b self ! 1)"

text \<open>
  Steps 2 to 6 of section 4.1, as arithmetic on the reals: the two ignore flags, the
  bound chosen by the sign of the divisor, the two tightenings of
  \<open>(dsLower, dsUpper)\<close>, and the tightening of \<open>(d2sLower, d2sUpper)\<close> at
  \<open>sDot = dsUpper\<close>. Nothing is clamped or repaired afterwards.
\<close>

definition tightened_bounds ::
  "TimeScaler \<Rightarrow> real \<Rightarrow> real \<Rightarrow> real \<Rightarrow> real \<times> real \<times> real \<times> real" where
  "tightened_bounds self dbeta d2beta dphi_dot =
     (let ignoreBeta = (\<bar>dbeta\<bar> \<le> 1 / 100);
          ignorePhi = (\<bar>dphi_dot\<bar> \<le> 1 / 100);
          betaLower = beta_2dot_b self ! (if dbeta < 0 then 1 else 0);
          betaUpper = beta_2dot_b self ! (if dbeta < 0 then 0 else 1);
          phiLower = phi_2dot_b self ! (if dphi_dot < 0 then 1 else 0);
          phiUpper = phi_2dot_b self ! (if dphi_dot < 0 then 0 else 1);
          dsLower4 = (if ignoreBeta then 0 else max 0 (betaLower / dbeta));
          dsUpper4 = (if ignoreBeta then 1 else min 1 (betaUpper / dbeta));
          dsLower = (if ignorePhi then dsLower4 else max dsLower4 (phiLower / dphi_dot));
          dsUpper = (if ignorePhi then dsUpper4 else min dsUpper4 (phiUpper / dphi_dot));
          sDot = dsUpper;
          d2sLower =
            (if ignoreBeta then 0 else max 0 ((betaLower - d2beta * sDot ^ 2) / dbeta));
          d2sUpper =
            (if ignoreBeta then 1 else min 1 ((betaUpper - d2beta * sDot ^ 2) / dbeta))
      in (dsLower, dsUpper, d2sLower, d2sUpper))"

text \<open>
  Widening (section 8, monotonicity): every lower bound of the second configuration is
  no larger, every upper bound no smaller.
\<close>

definition interval_widened :: "real list \<Rightarrow> real list \<Rightarrow> bool" where
  "interval_widened rng rng' = (rng' ! 0 \<le> rng ! 0 \<and> rng ! 1 \<le> rng' ! 1)"

definition bounds_widened :: "TimeScaler \<Rightarrow> TimeScaler \<Rightarrow> bool" where
  "bounds_widened self self' =
     (interval_widened (beta_dot_b self) (beta_dot_b self') \<and>
      interval_widened (beta_2dot_b self) (beta_2dot_b self') \<and>
      interval_widened (phi_2dot_b self) (phi_2dot_b self'))"

section \<open>Properties\<close>

subsection \<open>The source's functions on well-formed bounds\<close>

text \<open>
  With \<^verbatim>\<open>b = 0\<close>, \<^verbatim>\<open>abs_tol = 1e-2\<close> and the default \<^verbatim>\<open>rel_tol\<close>, the test of
  \<^verbatim>\<open>math.isclose\<close> is \<open>\<bar>v\<bar> \<le> 1/100\<close>: the relative term \<open>\<bar>v\<bar> / 10\<^sup>9\<close> is below
  \<open>\<bar>v\<bar>\<close> unless both are zero.
\<close>

lemma isclose_zero: "isclose v 0 default_rel_tol (1 / 100) \<longleftrightarrow> \<bar>v\<bar> \<le> 1 / 100"
proof -
  have "default_rel_tol * \<bar>v\<bar> \<le> \<bar>v\<bar>"
    unfolding default_rel_tol_def by (simp add: mult_left_le_one_le)
  moreover have "default_rel_tol * \<bar>v\<bar> < \<bar>v\<bar>" if "v \<noteq> 0"
    using that unfolding default_rel_tol_def by simp
  ultimately show ?thesis
    unfolding isclose_def by (auto simp: max_def)
qed

lemma getitem_0: "2 \<le> length rng \<Longrightarrow> getitem rng 0 = Inr (rng ! 0)"
  by (auto simp: getitem_def)

lemma getitem_1: "2 \<le> length rng \<Longrightarrow> getitem rng (Suc 0) = Inr (rng ! 1)"
  by (simp add: getitem_def)

lemma in_range_pair:
  "2 \<le> length rng \<Longrightarrow> in_range v rng = Inr (rng ! 0 \<le> v \<and> v \<le> rng ! 1)"
  by (simp add: in_range_def bind_result_def getitem_0 getitem_1)

lemma fast_test:
  "has_bound_pairs self \<Longrightarrow>
   py_and (in_range dbeta (beta_dot_b self))
     (py_and (in_range d2beta (beta_2dot_b self)) (in_range dphi_dot (phi_2dot_b self)))
   = Inr (commands_within_bounds self dbeta d2beta dphi_dot)"
  by (auto simp: has_bound_pairs_def commands_within_bounds_def in_range_pair py_and_def)

lemma beta_rate_block_eq:
  "2 \<le> length (beta_2dot_b self) \<Longrightarrow> dbeta \<noteq> 0 \<Longrightarrow>
   beta_rate_block self dbeta (l, u) =
     Inr (max l (beta_2dot_b self ! (if dbeta < 0 then 1 else 0) / dbeta),
          min u (beta_2dot_b self ! (if dbeta < 0 then 0 else 1) / dbeta))"
  by (simp add: beta_rate_block_def bind_result_def getitem_0 getitem_1 py_div_def)

lemma phi_rate_block_eq:
  "2 \<le> length (phi_2dot_b self) \<Longrightarrow> dphi_dot \<noteq> 0 \<Longrightarrow>
   phi_rate_block self dphi_dot (l, u) =
     Inr (max l (phi_2dot_b self ! (if dphi_dot < 0 then 1 else 0) / dphi_dot),
          min u (phi_2dot_b self ! (if dphi_dot < 0 then 0 else 1) / dphi_dot))"
  by (simp add: phi_rate_block_def bind_result_def getitem_0 getitem_1 py_div_def)

lemma beta_accel_block_eq:
  "2 \<le> length (beta_2dot_b self) \<Longrightarrow> dbeta \<noteq> 0 \<Longrightarrow>
   beta_accel_block self dbeta d2beta s (l, u) =
     Inr (max l ((beta_2dot_b self ! (if dbeta < 0 then 1 else 0) - d2beta * s ^ 2) / dbeta),
          min u ((beta_2dot_b self ! (if dbeta < 0 then 0 else 1) - d2beta * s ^ 2) / dbeta))"
  by (simp add: beta_accel_block_def bind_result_def getitem_0 getitem_1 py_div_def)

text \<open>The first test succeeds: the method returns at line 41.\<close>

lemma csb_fast:
  "has_bound_pairs self \<Longrightarrow> commands_within_bounds self dbeta d2beta dphi_dot \<Longrightarrow>
   compute_scaling_bounds self dbeta d2beta dphi_dot = Inr (0, 1, 0, 1)"
  by (simp add: compute_scaling_bounds_def fast_test bind_result_def)

text \<open>
  The first test fails: the method runs lines 46 to 80, raises nothing (a divisor that
  is not ignored is not zero) and returns the tightened values.
\<close>

lemma csb_general:
  assumes "has_bound_pairs self" "\<not> commands_within_bounds self dbeta d2beta dphi_dot"
  shows "compute_scaling_bounds self dbeta d2beta dphi_dot =
         Inr (tightened_bounds self dbeta d2beta dphi_dot)"
proof -
  have len: "2 \<le> length (beta_2dot_b self)" "2 \<le> length (phi_2dot_b self)"
    using assms(1) by (simp_all add: has_bound_pairs_def)
  show ?thesis
  proof (cases "\<bar>dbeta\<bar> \<le> 1 / 100")
    case True
    show ?thesis
    proof (cases "\<bar>dphi_dot\<bar> \<le> 1 / 100")
      case t: True
      with True assms show ?thesis
        by (simp add: compute_scaling_bounds_def fast_test bind_result_def isclose_zero
            tightened_bounds_def Let_def split del: if_split)
    next
      case False
      then have "dphi_dot \<noteq> 0" by auto
      with True False assms len show ?thesis
        by (simp add: compute_scaling_bounds_def fast_test bind_result_def isclose_zero
            tightened_bounds_def Let_def phi_rate_block_eq split del: if_split)
    qed
  next
    case False
    then have nz: "dbeta \<noteq> 0" by auto
    show ?thesis
    proof (cases "\<bar>dphi_dot\<bar> \<le> 1 / 100")
      case True
      with False nz assms len show ?thesis
        by (simp add: compute_scaling_bounds_def fast_test bind_result_def isclose_zero
            tightened_bounds_def Let_def beta_rate_block_eq beta_accel_block_eq
            split del: if_split)
    next
      case f: False
      then have "dphi_dot \<noteq> 0" by auto
      with False f nz assms len show ?thesis
        by (simp add: compute_scaling_bounds_def fast_test bind_result_def isclose_zero
            tightened_bounds_def Let_def beta_rate_block_eq beta_accel_block_eq
            phi_rate_block_eq split del: if_split)
    qed
  qed
qed

text \<open>The four values stay between the identity values \<open>0\<close> and \<open>1\<close>.\<close>

lemma tightened_range:
  assumes "tightened_bounds self dbeta d2beta dphi_dot = (a, b, c, d)"
  shows "0 \<le> a \<and> b \<le> 1 \<and> 0 \<le> c \<and> d \<le> 1"
proof -
  have "0 \<le> fst (tightened_bounds self dbeta d2beta dphi_dot) \<and>
      fst (snd (tightened_bounds self dbeta d2beta dphi_dot)) \<le> 1 \<and>
      0 \<le> fst (snd (snd (tightened_bounds self dbeta d2beta dphi_dot))) \<and>
      snd (snd (snd (tightened_bounds self dbeta d2beta dphi_dot))) \<le> 1"
    by (cases "\<bar>dbeta\<bar> \<le> 1 / 100"; cases "\<bar>dphi_dot\<bar> \<le> 1 / 100")
      (simp_all only: tightened_bounds_def Let_def if_True if_False fst_conv snd_conv
        le_max_iff_disj min_le_iff_disj order_refl zero_le_one simp_thms)
  then show ?thesis by (simp only: assms fst_conv snd_conv)
qed

text \<open>
  Dividing by \<open>v\<close> keeps the order of the bounds when \<open>v > 0\<close> and reverses it when
  \<open>v < 0\<close>; the index chosen by the sign of \<open>v\<close> undoes the reversal. So a wider
  interval gives a lower quotient on the lower side and a higher one on the upper side,
  whatever \<open>k\<close> is subtracted first.
\<close>

lemma sign_div_mono:
  assumes "interval_widened r r'" and "v \<noteq> 0"
  shows "(r' ! (if v < 0 then 1 else 0) - k) / v \<le> (r ! (if v < 0 then 1 else 0) - k) / v"
    and "(r ! (if v < 0 then 0 else 1) - k) / v \<le> (r' ! (if v < 0 then 0 else 1) - k) / v"
  using assms
  by (simp_all add: interval_widened_def divide_right_mono divide_right_mono_neg)

lemma tightened_mono:
  assumes wb: "interval_widened (beta_2dot_b A) (beta_2dot_b B)"
    and wp: "interval_widened (phi_2dot_b A) (phi_2dot_b B)"
    and tA: "tightened_bounds A dbeta d2beta dphi_dot = (a, b, c, d)"
    and tB: "tightened_bounds B dbeta d2beta dphi_dot = (a', b', c', d')"
  shows "a' \<le> a \<and> b \<le> b' \<and>
         (\<bar>dbeta\<bar> \<le> 1 / 100 \<or> d2beta * b' ^ 2 = d2beta * b ^ 2 \<longrightarrow> c' \<le> c \<and> d \<le> d')"
proof (cases "\<bar>dbeta\<bar> \<le> 1 / 100")
  case iB: True
  show ?thesis
  proof (cases "\<bar>dphi_dot\<bar> \<le> 1 / 100")
    case True
    with iB tA tB show ?thesis
      by (simp only: tightened_bounds_def Let_def if_True if_False prod.inject) simp
  next
    case False
    then have "dphi_dot \<noteq> 0" by auto
    note m = sign_div_mono [OF wp this, of 0, simplified]
    from iB False tA tB
    have "a = max 0 (phi_2dot_b A ! (if dphi_dot < 0 then 1 else 0) / dphi_dot)"
      "a' = max 0 (phi_2dot_b B ! (if dphi_dot < 0 then 1 else 0) / dphi_dot)"
      "b = min 1 (phi_2dot_b A ! (if dphi_dot < 0 then 0 else 1) / dphi_dot)"
      "b' = min 1 (phi_2dot_b B ! (if dphi_dot < 0 then 0 else 1) / dphi_dot)"
      "c = 0" "c' = 0" "d = 1" "d' = 1"
      by (simp_all only: tightened_bounds_def Let_def if_True if_False prod.inject simp_thms)
    with m show ?thesis
      by (simp only: max.mono min.mono order_refl simp_thms)
  qed
next
  case nB: False
  then have nz: "dbeta \<noteq> 0" by auto
  note mb = sign_div_mono [OF wb nz, of 0, simplified]
  show ?thesis
  proof (cases "\<bar>dphi_dot\<bar> \<le> 1 / 100")
    case True
    from nB True tA tB
    have e: "a = max 0 (beta_2dot_b A ! (if dbeta < 0 then 1 else 0) / dbeta)"
      "a' = max 0 (beta_2dot_b B ! (if dbeta < 0 then 1 else 0) / dbeta)"
      "b = min 1 (beta_2dot_b A ! (if dbeta < 0 then 0 else 1) / dbeta)"
      "b' = min 1 (beta_2dot_b B ! (if dbeta < 0 then 0 else 1) / dbeta)"
      and e2: "c = max 0 ((beta_2dot_b A ! (if dbeta < 0 then 1 else 0) - d2beta * b ^ 2) / dbeta)"
      "c' = max 0 ((beta_2dot_b B ! (if dbeta < 0 then 1 else 0) - d2beta * b' ^ 2) / dbeta)"
      "d = min 1 ((beta_2dot_b A ! (if dbeta < 0 then 0 else 1) - d2beta * b ^ 2) / dbeta)"
      "d' = min 1 ((beta_2dot_b B ! (if dbeta < 0 then 0 else 1) - d2beta * b' ^ 2) / dbeta)"
      by (simp_all only: tightened_bounds_def Let_def if_True if_False prod.inject simp_thms)
        (elim conjE, hypsubst, rule refl)+
    have ds: "a' \<le> a \<and> b \<le> b'"
      unfolding e using mb by (simp only: max.mono min.mono order_refl simp_thms)
    have "c' \<le> c \<and> d \<le> d'" if "d2beta * b' ^ 2 = d2beta * b ^ 2"
      unfolding e2 that using sign_div_mono [OF wb nz, of "d2beta * b ^ 2"]
      by (simp only: max.mono min.mono order_refl simp_thms)
    with ds nB show ?thesis by blast
  next
    case False
    then have "dphi_dot \<noteq> 0" by auto
    note mp = sign_div_mono [OF wp this, of 0, simplified]
    from nB False tA tB
    have e: "a = max (max 0 (beta_2dot_b A ! (if dbeta < 0 then 1 else 0) / dbeta))
                 (phi_2dot_b A ! (if dphi_dot < 0 then 1 else 0) / dphi_dot)"
      "a' = max (max 0 (beta_2dot_b B ! (if dbeta < 0 then 1 else 0) / dbeta))
                 (phi_2dot_b B ! (if dphi_dot < 0 then 1 else 0) / dphi_dot)"
      "b = min (min 1 (beta_2dot_b A ! (if dbeta < 0 then 0 else 1) / dbeta))
                 (phi_2dot_b A ! (if dphi_dot < 0 then 0 else 1) / dphi_dot)"
      "b' = min (min 1 (beta_2dot_b B ! (if dbeta < 0 then 0 else 1) / dbeta))
                 (phi_2dot_b B ! (if dphi_dot < 0 then 0 else 1) / dphi_dot)"
      and e2: "c = max 0 ((beta_2dot_b A ! (if dbeta < 0 then 1 else 0) - d2beta * b ^ 2) / dbeta)"
      "c' = max 0 ((beta_2dot_b B ! (if dbeta < 0 then 1 else 0) - d2beta * b' ^ 2) / dbeta)"
      "d = min 1 ((beta_2dot_b A ! (if dbeta < 0 then 0 else 1) - d2beta * b ^ 2) / dbeta)"
      "d' = min 1 ((beta_2dot_b B ! (if dbeta < 0 then 0 else 1) - d2beta * b' ^ 2) / dbeta)"
      by (simp_all only: tightened_bounds_def Let_def if_True if_False prod.inject simp_thms)
        (elim conjE, hypsubst, rule refl)+
    have ds: "a' \<le> a \<and> b \<le> b'"
      unfolding e using mb mp by (simp only: max.mono min.mono order_refl simp_thms)
    have "c' \<le> c \<and> d \<le> d'" if "d2beta * b' ^ 2 = d2beta * b ^ 2"
      unfolding e2 that using sign_div_mono [OF wb nz, of "d2beta * b ^ 2"]
      by (simp only: max.mono min.mono order_refl simp_thms)
    with ds nB show ?thesis by blast
  qed
qed

lemma cwb_widened:
  "bounds_widened A B \<Longrightarrow> commands_within_bounds A dbeta d2beta dphi_dot \<Longrightarrow>
   commands_within_bounds B dbeta d2beta dphi_dot"
  by (auto simp: bounds_widened_def interval_widened_def commands_within_bounds_def)

subsection \<open>The stored scaling parameters\<close>

text \<open>
  The two attributes are missing exactly as long as no call of
  \<^verbatim>\<open>compute_scaling_parameters\<close> was made.
\<close>

lemma stored_after_calls:
  "(s_dot (foldl after_call self calls) = None \<longleftrightarrow>
      s_dot self = None \<and> \<not> list_ex is_selection calls) \<and>
   (s_2dot (foldl after_call self calls) = None \<longleftrightarrow>
      s_2dot self = None \<and> \<not> list_ex is_selection calls)"
proof (induction calls arbitrary: self)
  case Nil
  show ?case by simp
next
  case (Cons c calls)
  show ?case
    by (cases c) (simp_all add: Cons.IH compute_scaling_parameters_def)
qed

lemma scale_motion_raises:
  "(\<exists>e. scale_motion self dbeta d2beta dphi_dot = Inl e) \<longleftrightarrow>
     s_dot self = None \<or> s_2dot self = None"
  by (simp add: scale_motion_def split: option.split)

section \<open>The claims\<close>

subsection \<open>Bounds on the rate of the path parameter\<close>

text \<open>
  The worked scenario of section 8: \<open>dbeta = 4\<close> is outside betaDotBounds \<open>[-1, 1]\<close>, so
  the first test fails; \<open>dphi_dot = 0\<close> is ignored; \<open>ds_upper = min 1 (2 / 4)\<close>.
\<close>

lemma worked_scenario:
  "compute_scaling_bounds (init [-1, 1] [-2, 2] [-3, 3]) 4 0 0 = Inr (0, 1 / 2, 0, 1 / 2)"
proof -
  let ?ts = "init [-1, 1] [-2, 2] [-3, 3]"
  have "has_bound_pairs ?ts" by (simp add: has_bound_pairs_def init_def)
  moreover have "\<not> commands_within_bounds ?ts 4 0 0"
    by (simp add: commands_within_bounds_def init_def)
  ultimately have "compute_scaling_bounds ?ts 4 0 0 = Inr (tightened_bounds ?ts 4 0 0)"
    by (rule csb_general)
  moreover have "tightened_bounds ?ts 4 0 0 = (0, 1 / 2, 0, 1 / 2)"
    by (simp add: tightened_bounds_def init_def)
  ultimately show ?thesis by simp
qed

text \<open>
  Claim C1. When the commands are not all within their bounds and \<open>dbeta\<close> is not
  ignored (\<open>\<bar>dbeta\<bar> > 1/100\<close>), \<^verbatim>\<open>compute_scaling_bounds\<close> returns, and its
  \<open>ds_lower\<close> and \<open>ds_upper\<close> are these: with \<open>(lower, upper) = (1, 0)\<close> when
  \<open>dbeta < 0\<close> and \<open>(0, 1)\<close> otherwise, \<open>max 0 (beta_2dot_b[lower] / dbeta)\<close> and
  \<open>min 1 (beta_2dot_b[upper] / dbeta)\<close> (the acceleration bounds of the module, not
  its rate bounds \<^verbatim>\<open>beta_dot_b\<close>); and when \<open>dphi_dot\<close> is not ignored either, these
  two tightened once more by \<open>phi_2dot_b[lower] / dphi_dot\<close> and
  \<open>phi_2dot_b[upper] / dphi_dot\<close>, the indices now chosen by the sign of \<open>dphi_dot\<close>.
  For the bounds \<open>[-1, 1]\<close>, \<open>[-2, 2]\<close>, \<open>[-3, 3]\<close> and the sample \<open>(4, 0, 0)\<close> the
  result has \<open>ds_lower = 0\<close> and \<open>ds_upper = 1/2\<close>.
\<close>

theorem rate_bounds_tightening:
  "(has_bound_pairs self \<and> \<not> commands_within_bounds self dbeta d2beta dphi_dot \<and>
    \<not> \<bar>dbeta\<bar> \<le> 1 / 100 \<longrightarrow>
    (\<exists>ds_lower ds_upper d2s_lower d2s_upper.
       compute_scaling_bounds self dbeta d2beta dphi_dot =
         Inr (ds_lower, ds_upper, d2s_lower, d2s_upper) \<and>
       (let (lower, upper) = (if dbeta < 0 then (1, 0) else (0, 1));
            ds_lower_beta = max 0 (beta_2dot_b self ! lower / dbeta);
            ds_upper_beta = min 1 (beta_2dot_b self ! upper / dbeta)
        in if \<bar>dphi_dot\<bar> \<le> 1 / 100
           then ds_lower = ds_lower_beta \<and> ds_upper = ds_upper_beta
           else (let (lower, upper) = (if dphi_dot < 0 then (1, 0) else (0, 1))
                 in ds_lower = max ds_lower_beta (phi_2dot_b self ! lower / dphi_dot) \<and>
                    ds_upper = min ds_upper_beta (phi_2dot_b self ! upper / dphi_dot)))))
   \<and> compute_scaling_bounds (init [-1, 1] [-2, 2] [-3, 3]) 4 0 0 = Inr (0, 1 / 2, 0, 1 / 2)"
  (is "(?H \<longrightarrow> (\<exists>ds_lower ds_upper d2s_lower d2s_upper. _ \<and> ?P ds_lower ds_upper)) \<and> ?E")
proof (intro conjI impI)
  assume h: ?H
  obtain a b c d where t: "tightened_bounds self dbeta d2beta dphi_dot = (a, b, c, d)"
    by (cases "tightened_bounds self dbeta d2beta dphi_dot") blast
  from h have r: "compute_scaling_bounds self dbeta d2beta dphi_dot = Inr (a, b, c, d)"
    by (simp add: csb_general t)
  from h have nb: "(\<bar>dbeta\<bar> \<le> 1 / 100) = False" by simp
  have "?P a b"
    using t nb
    by (cases "dbeta < 0"; cases "dphi_dot < 0"; cases "\<bar>dphi_dot\<bar> \<le> 1 / 100")
      (simp_all only: tightened_bounds_def Let_def if_True if_False prod.case simp_thms
        prod.inject)
  with r show "\<exists>ds_lower ds_upper d2s_lower d2s_upper.
       compute_scaling_bounds self dbeta d2beta dphi_dot =
         Inr (ds_lower, ds_upper, d2s_lower, d2s_upper) \<and> ?P ds_lower ds_upper"
    by blast
next
  show ?E by (rule worked_scenario)
qed

text \<open>
  The theorem at a negative \<open>dbeta\<close> and a \<open>dphi_dot\<close> that is not ignored: the indices
  are swapped for \<open>dbeta = -4\<close>, giving \<open>min 1 ((-2) / (-4)) = 1/2\<close>, and the wheel's
  bound tightens it to \<open>3 / 8\<close>.
\<close>

theorem rate_bounds_tightening_witness:
  "has_bound_pairs (init [-1, 1] [-2, 2] [-3, 3]) \<and>
   \<not> commands_within_bounds (init [-1, 1] [-2, 2] [-3, 3]) (-4) 0 8 \<and>
   \<not> \<bar>-4 :: real\<bar> \<le> 1 / 100 \<and>
   (\<exists>d2s_lower d2s_upper.
      compute_scaling_bounds (init [-1, 1] [-2, 2] [-3, 3]) (-4) 0 8 =
        Inr (0, 3 / 8, d2s_lower, d2s_upper))"
proof -
  let ?ts = "init [-1, 1] [-2, 2] [-3, 3]"
  have h: "has_bound_pairs ?ts \<and> \<not> commands_within_bounds ?ts (-4) 0 8 \<and>
      \<not> \<bar>-4 :: real\<bar> \<le> 1 / 100"
    by (simp add: has_bound_pairs_def commands_within_bounds_def init_def)
  with rate_bounds_tightening [of ?ts "-4" 0 8]
  obtain a b c d where r: "compute_scaling_bounds ?ts (-4) 0 8 = Inr (a, b, c, d)"
    and ab: "a = 0 \<and> b = 3 / 8"
    by (auto simp: init_def)
  with h show ?thesis by simp
qed

subsection \<open>Bounds on the acceleration of the path parameter\<close>

text \<open>
  Claim C2. On bounds with two elements each \<^verbatim>\<open>compute_scaling_bounds\<close> returns.
  When the commands are not all within their bounds and \<open>dbeta\<close> is not ignored, the
  returned \<open>d2s_lower\<close> and \<open>d2s_upper\<close> are
  \<open>max 0 ((beta_2dot_b[lower] - d2beta * s_dot\<^sup>2) / dbeta)\<close> and
  \<open>min 1 ((beta_2dot_b[upper] - d2beta * s_dot\<^sup>2) / dbeta)\<close>, where \<open>s_dot\<close> is the
  returned \<open>ds_upper\<close> and \<open>(lower, upper)\<close> is \<open>(1, 0)\<close> when \<open>dbeta < 0\<close> and
  \<open>(0, 1)\<close> otherwise. When \<open>dbeta\<close> is ignored they are \<open>0\<close> and \<open>1\<close>.
\<close>

theorem accel_bounds_tightening:
  assumes "has_bound_pairs self"
  shows "\<exists>ds_lower ds_upper d2s_lower d2s_upper.
       compute_scaling_bounds self dbeta d2beta dphi_dot =
         Inr (ds_lower, ds_upper, d2s_lower, d2s_upper) \<and>
       (\<not> commands_within_bounds self dbeta d2beta dphi_dot \<and> \<not> \<bar>dbeta\<bar> \<le> 1 / 100 \<longrightarrow>
          (let s_dot = ds_upper;
               (lower, upper) = (if dbeta < 0 then (1, 0) else (0, 1))
           in d2s_lower = max 0 ((beta_2dot_b self ! lower - d2beta * s_dot ^ 2) / dbeta) \<and>
              d2s_upper = min 1 ((beta_2dot_b self ! upper - d2beta * s_dot ^ 2) / dbeta))) \<and>
       (\<bar>dbeta\<bar> \<le> 1 / 100 \<longrightarrow> d2s_lower = 0 \<and> d2s_upper = 1)"
  (is "\<exists>ds_lower ds_upper d2s_lower d2s_upper. _ \<and> ?P ds_upper d2s_lower d2s_upper")
proof (cases "commands_within_bounds self dbeta d2beta dphi_dot")
  case True
  with assms have "compute_scaling_bounds self dbeta d2beta dphi_dot = Inr (0, 1, 0, 1)"
    by (rule csb_fast)
  moreover from True have "?P 1 0 1" by simp
  ultimately show ?thesis by blast
next
  case False
  obtain a b c d where t: "tightened_bounds self dbeta d2beta dphi_dot = (a, b, c, d)"
    by (cases "tightened_bounds self dbeta d2beta dphi_dot") blast
  from assms False have r: "compute_scaling_bounds self dbeta d2beta dphi_dot = Inr (a, b, c, d)"
    by (simp add: csb_general t)
  have "?P b c d"
    using t False
    by (cases "dbeta < 0"; cases "\<bar>dbeta\<bar> \<le> 1 / 100"; cases "\<bar>dphi_dot\<bar> \<le> 1 / 100")
      (simp_all only: tightened_bounds_def Let_def if_True if_False prod.case simp_thms
        prod.inject)
  with r show ?thesis by blast
qed

text \<open>
  The theorem at \<open>dbeta = -4\<close>, which is not ignored, and at \<open>dbeta = 1/200\<close>, which
  is: there \<open>d2beta = 64\<close> leaves \<open>(d2s_lower, d2s_upper) = (0, 1)\<close>.
\<close>

theorem accel_bounds_tightening_witness:
  "has_bound_pairs (init [-1, 1] [-2, 2] [-3, 3]) \<and>
   \<not> commands_within_bounds (init [-1, 1] [-2, 2] [-3, 3]) (-4) 2 8 \<and>
   \<not> \<bar>-4 :: real\<bar> \<le> 1 / 100 \<and>
   (\<exists>ds_lower ds_upper.
      compute_scaling_bounds (init [-1, 1] [-2, 2] [-3, 3]) (-4) 2 8 =
        Inr (ds_lower, ds_upper,
             max 0 ((2 - 2 * ds_upper ^ 2) / (-4)), min 1 ((-2 - 2 * ds_upper ^ 2) / (-4)))) \<and>
   \<bar>1 / 200 :: real\<bar> \<le> 1 / 100 \<and>
   (\<exists>ds_lower ds_upper.
      compute_scaling_bounds (init [-1, 1] [-2, 2] [-3, 3]) (1 / 200) 64 8 =
        Inr (ds_lower, ds_upper, 0, 1))"
proof -
  let ?ts = "init [-1, 1] [-2, 2] [-3, 3]"
  have h: "has_bound_pairs ?ts"
    by (simp add: has_bound_pairs_def init_def)
  have g: "\<not> commands_within_bounds ?ts (-4) 2 8 \<and> \<not> \<bar>-4 :: real\<bar> \<le> 1 / 100"
    by (simp add: commands_within_bounds_def init_def)
  have i: "\<bar>1 / 200 :: real\<bar> \<le> 1 / 100" by simp
  from accel_bounds_tightening [OF h, of "-4" 2 8] g
  have 1: "\<exists>ds_lower ds_upper.
      compute_scaling_bounds ?ts (-4) 2 8 =
        Inr (ds_lower, ds_upper,
             max 0 ((2 - 2 * ds_upper ^ 2) / (-4)), min 1 ((-2 - 2 * ds_upper ^ 2) / (-4)))"
    by (auto simp: init_def)
  from accel_bounds_tightening [OF h, of "1 / 200" 64 8] i
  have 2: "\<exists>ds_lower ds_upper.
      compute_scaling_bounds ?ts (1 / 200) 64 8 = Inr (ds_lower, ds_upper, 0, 1)"
    by auto
  from h g i 1 2 show ?thesis by blast
qed

subsection \<open>The fast path\<close>

text \<open>
  Claim C3. When \<open>dbeta\<close> is within \<^verbatim>\<open>beta_dot_b\<close>, \<open>d2beta\<close> within
  \<^verbatim>\<open>beta_2dot_b\<close> and \<open>dphi_dot\<close> within \<^verbatim>\<open>phi_2dot_b\<close>, all three inclusively,
  \<^verbatim>\<open>compute_scaling_bounds\<close> returns exactly \<open>(0, 1, 0, 1)\<close>.
\<close>

theorem fast_path_identity:
  "has_bound_pairs self \<Longrightarrow> commands_within_bounds self dbeta d2beta dphi_dot \<Longrightarrow>
   compute_scaling_bounds self dbeta d2beta dphi_dot = Inr (0, 1, 0, 1)"
  by (simp add: compute_scaling_bounds_def fast_test bind_result_def)

text \<open>The theorem at commands on the edges of their intervals.\<close>

theorem fast_path_identity_witness:
  "has_bound_pairs (init [-1, 1] [-2, 2] [-3, 3]) \<and>
   commands_within_bounds (init [-1, 1] [-2, 2] [-3, 3]) (1 / 2) 2 (-3) \<and>
   compute_scaling_bounds (init [-1, 1] [-2, 2] [-3, 3]) (1 / 2) 2 (-3) = Inr (0, 1, 0, 1)"
proof -
  let ?ts = "init [-1, 1] [-2, 2] [-3, 3]"
  have b: "has_bound_pairs ?ts"
    by (simp add: has_bound_pairs_def init_def)
  have w: "commands_within_bounds ?ts (1 / 2) 2 (-3)"
    by (simp add: commands_within_bounds_def init_def)
  from b w fast_path_identity [OF b w] show ?thesis by simp
qed

subsection \<open>Commands near zero\<close>

text \<open>
  Claim C4. When \<open>\<bar>dbeta\<bar> \<le> 1/100\<close>, whatever \<open>d2beta\<close> and \<open>dphi_dot\<close> are, the
  returned \<open>(ds_lower, ds_upper)\<close> is what the method computes without the tightening by
  \<open>dbeta\<close>: \<open>(0, 1)\<close> on the fast path or when \<open>dphi_dot\<close> is ignored too, and
  otherwise \<open>(0, 1)\<close> tightened by the wheel's bound alone. The same holds with the
  roles of \<open>dbeta\<close> and \<open>dphi_dot\<close> exchanged. When both are ignored the result is
  \<open>(0, 1, 0, 1)\<close>, however large \<open>d2beta\<close> is.
\<close>

theorem near_zero_commands_ignored:
  assumes "has_bound_pairs self"
  shows "\<exists>ds_lower ds_upper d2s_lower d2s_upper.
       compute_scaling_bounds self dbeta d2beta dphi_dot =
         Inr (ds_lower, ds_upper, d2s_lower, d2s_upper) \<and>
       (\<bar>dbeta\<bar> \<le> 1 / 100 \<longrightarrow>
          (ds_lower, ds_upper) =
            (if commands_within_bounds self dbeta d2beta dphi_dot \<or> \<bar>dphi_dot\<bar> \<le> 1 / 100
             then (0, 1)
             else let (lower, upper) = (if dphi_dot < 0 then (1, 0) else (0, 1))
                  in (max 0 (phi_2dot_b self ! lower / dphi_dot),
                      min 1 (phi_2dot_b self ! upper / dphi_dot)))) \<and>
       (\<bar>dphi_dot\<bar> \<le> 1 / 100 \<longrightarrow>
          (ds_lower, ds_upper) =
            (if commands_within_bounds self dbeta d2beta dphi_dot \<or> \<bar>dbeta\<bar> \<le> 1 / 100
             then (0, 1)
             else let (lower, upper) = (if dbeta < 0 then (1, 0) else (0, 1))
                  in (max 0 (beta_2dot_b self ! lower / dbeta),
                      min 1 (beta_2dot_b self ! upper / dbeta)))) \<and>
       (\<bar>dbeta\<bar> \<le> 1 / 100 \<and> \<bar>dphi_dot\<bar> \<le> 1 / 100 \<longrightarrow>
          (ds_lower, ds_upper, d2s_lower, d2s_upper) = (0, 1, 0, 1))"
  (is "\<exists>ds_lower ds_upper d2s_lower d2s_upper. _ \<and> ?P ds_lower ds_upper d2s_lower d2s_upper")
proof (cases "commands_within_bounds self dbeta d2beta dphi_dot")
  case True
  with assms have "compute_scaling_bounds self dbeta d2beta dphi_dot = Inr (0, 1, 0, 1)"
    by (rule csb_fast)
  moreover from True have "?P 0 1 0 1" by simp
  ultimately show ?thesis by blast
next
  case False
  obtain a b c d where t: "tightened_bounds self dbeta d2beta dphi_dot = (a, b, c, d)"
    by (cases "tightened_bounds self dbeta d2beta dphi_dot") blast
  from assms False have r: "compute_scaling_bounds self dbeta d2beta dphi_dot = Inr (a, b, c, d)"
    by (simp add: csb_general t)
  have "?P a b c d"
    using t False
    by (cases "dbeta < 0"; cases "dphi_dot < 0"; cases "\<bar>dbeta\<bar> \<le> 1 / 100";
        cases "\<bar>dphi_dot\<bar> \<le> 1 / 100")
      (simp_all only: tightened_bounds_def Let_def if_True if_False prod.case simp_thms
        prod.inject)
  with r show ?thesis by blast
qed

text \<open>
  The theorem at \<open>dbeta = 1/200 = 0.005\<close> with \<open>d2beta = 64\<close> far outside its bounds:
  only the wheel's bound shows in \<open>ds_upper = (-3) / (-8)\<close>; at \<open>dphi_dot = -1/128\<close>:
  only the module's bound shows in \<open>ds_upper = 2 / 4\<close>; and at both.
\<close>

theorem near_zero_commands_ignored_witness:
  "has_bound_pairs (init [-1, 1] [-2, 2] [-3, 3]) \<and>
   \<bar>1 / 200 :: real\<bar> \<le> 1 / 100 \<and>
   (\<exists>d2s_lower d2s_upper.
      compute_scaling_bounds (init [-1, 1] [-2, 2] [-3, 3]) (1 / 200) 64 (-8) =
        Inr (0, 3 / 8, d2s_lower, d2s_upper)) \<and>
   \<bar>-1 / 128 :: real\<bar> \<le> 1 / 100 \<and>
   (\<exists>d2s_lower d2s_upper.
      compute_scaling_bounds (init [-1, 1] [-2, 2] [-3, 3]) 4 64 (-1 / 128) =
        Inr (0, 1 / 2, d2s_lower, d2s_upper)) \<and>
   compute_scaling_bounds (init [-1, 1] [-2, 2] [-3, 3]) (1 / 200) 64 (-1 / 128) =
     Inr (0, 1, 0, 1)"
proof -
  let ?ts = "init [-1, 1] [-2, 2] [-3, 3]"
  have h: "has_bound_pairs ?ts"
    by (simp add: has_bound_pairs_def init_def)
  have i: "\<bar>1 / 200 :: real\<bar> \<le> 1 / 100" "\<bar>-1 / 128 :: real\<bar> \<le> 1 / 100"
    by simp_all
  from near_zero_commands_ignored [OF h, of "1 / 200" 64 "-8"]
  have 1: "\<exists>d2s_lower d2s_upper.
      compute_scaling_bounds ?ts (1 / 200) 64 (-8) = Inr (0, 3 / 8, d2s_lower, d2s_upper)"
    by (auto simp: init_def commands_within_bounds_def)
  from near_zero_commands_ignored [OF h, of 4 64 "-1 / 128"]
  have 2: "\<exists>d2s_lower d2s_upper.
      compute_scaling_bounds ?ts 4 64 (-1 / 128) = Inr (0, 1 / 2, d2s_lower, d2s_upper)"
    by (auto simp: init_def commands_within_bounds_def)
  from near_zero_commands_ignored [OF h, of "1 / 200" 64 "-1 / 128"]
  have 3: "compute_scaling_bounds ?ts (1 / 200) 64 (-1 / 128) = Inr (0, 1, 0, 1)"
    by auto
  from h i 1 2 3 show ?thesis by blast
qed

subsection \<open>Scaling the motion\<close>

text \<open>
  Claim C5. With stored parameters \<open>sDot\<close> and \<open>sDotDot\<close>, \<^verbatim>\<open>scale_motion\<close> returns
  exactly \<open>(dbeta * sDot, d2beta * sDot\<^sup>2 + dbeta * sDotDot, dphi_dot * sDot)\<close>; for
  \<open>sDot = 2\<close>, \<open>sDotDot = 1/2\<close> and the sample \<open>(3, 1, 4)\<close> that is \<open>(6, 11/2, 8)\<close>.
\<close>

theorem scale_motion_chain_rule:
  "(s_dot self = Some sDot \<and> s_2dot self = Some sDotDot \<longrightarrow>
      scale_motion self dbeta d2beta dphi_dot =
        Inr (dbeta * sDot, d2beta * sDot ^ 2 + dbeta * sDotDot, dphi_dot * sDot)) \<and>
   (s_dot self = Some 2 \<and> s_2dot self = Some (1 / 2) \<longrightarrow>
      scale_motion self 3 1 4 = Inr (6, 11 / 2, 8))"
  by (simp add: scale_motion_def)

text \<open>The theorem on an object whose parameters were stored by a call of the selection.\<close>

theorem scale_motion_chain_rule_witness:
  "s_dot (compute_scaling_parameters (init [-1, 1] [-2, 2] [-3, 3]) 0 2 0 (1 / 2)) = Some 2 \<and>
   s_2dot (compute_scaling_parameters (init [-1, 1] [-2, 2] [-3, 3]) 0 2 0 (1 / 2)) =
     Some (1 / 2) \<and>
   scale_motion (compute_scaling_parameters (init [-1, 1] [-2, 2] [-3, 3]) 0 2 0 (1 / 2)) 3 1 4 =
     Inr (6, 11 / 2, 8)"
proof -
  let ?ts = "compute_scaling_parameters (init [-1, 1] [-2, 2] [-3, 3]) 0 2 0 (1 / 2)"
  have h: "s_dot ?ts = Some 2 \<and> s_2dot ?ts = Some (1 / 2)"
    by (simp add: compute_scaling_parameters_def)
  with scale_motion_chain_rule [of ?ts 2 "1 / 2" 3 1 4] show ?thesis
    by simp
qed

text \<open>
  Claim C6. For \<open>ds_lower \<le> ds_upper\<close> and \<open>d2s_lower \<le> d2s_upper\<close>,
  \<^verbatim>\<open>compute_scaling_parameters\<close> leaves \<open>s_dot = ds_upper\<close> and
  \<open>s_2dot = d2s_upper\<close> in the object, whatever was stored there before (\<open>self\<close> is
  any object), and a following \<^verbatim>\<open>scale_motion\<close> computes with these two values, also
  when a call of \<^verbatim>\<open>compute_scaling_bounds\<close> comes in between.
\<close>

theorem scaling_parameters_select_upper:
  assumes "ds_lower \<le> ds_upper" and "d2s_lower \<le> d2s_upper"
  shows "s_dot (compute_scaling_parameters self ds_lower ds_upper d2s_lower d2s_upper) =
           Some ds_upper \<and>
         s_2dot (compute_scaling_parameters self ds_lower ds_upper d2s_lower d2s_upper) =
           Some d2s_upper \<and>
         scale_motion (compute_scaling_parameters self ds_lower ds_upper d2s_lower d2s_upper)
             dbeta d2beta dphi_dot =
           Inr (dbeta * ds_upper, d2beta * ds_upper ^ 2 + dbeta * d2s_upper,
                dphi_dot * ds_upper) \<and>
         scale_motion
             (after_call
                (compute_scaling_parameters self ds_lower ds_upper d2s_lower d2s_upper)
                (Compute_scaling_bounds dbeta d2beta dphi_dot))
             dbeta d2beta dphi_dot =
           Inr (dbeta * ds_upper, d2beta * ds_upper ^ 2 + dbeta * d2s_upper,
                dphi_dot * ds_upper)"
  by (simp add: compute_scaling_parameters_def scale_motion_def)

text \<open>
  The theorem on an object that already holds \<open>s_dot = 1\<close> and \<open>s_2dot = 1\<close>: the
  second selection overwrites them, and \<open>(4, 8, 2)\<close> is scaled to
  \<open>(4 / 2, 8 / 4 + 4 / 4, 2 / 2)\<close>.
\<close>

theorem scaling_parameters_select_upper_witness:
  "(0 :: real) \<le> 1 / 2 \<and> (0 :: real) \<le> 1 / 4 \<and>
   s_dot (compute_scaling_parameters
            (compute_scaling_parameters (init [-1, 1] [-2, 2] [-3, 3]) 0 1 0 1)
            0 (1 / 2) 0 (1 / 4)) = Some (1 / 2) \<and>
   s_2dot (compute_scaling_parameters
            (compute_scaling_parameters (init [-1, 1] [-2, 2] [-3, 3]) 0 1 0 1)
            0 (1 / 2) 0 (1 / 4)) = Some (1 / 4) \<and>
   scale_motion (compute_scaling_parameters
            (compute_scaling_parameters (init [-1, 1] [-2, 2] [-3, 3]) 0 1 0 1)
            0 (1 / 2) 0 (1 / 4)) 4 8 2 = Inr (2, 3, 1)"
proof -
  have h: "(0 :: real) \<le> 1 / 2" "(0 :: real) \<le> 1 / 4" by simp_all
  from h scaling_parameters_select_upper [OF h,
      of "compute_scaling_parameters (init [-1, 1] [-2, 2] [-3, 3]) 0 1 0 1" 4 8 2]
  show ?thesis by (simp add: power2_eq_square)
qed

subsection \<open>Crossed intervals\<close>

text \<open>
  Claim C7. There are valid bounds and samples for which \<^verbatim>\<open>compute_scaling_bounds\<close>
  returns a crossed interval: \<open>ds_lower = 2 > 1 = ds_upper\<close> for the acceleration
  bounds \<open>[1, 2]\<close> and \<open>dbeta = 1/2\<close>, and \<open>d2s_lower = 0 > -14 = d2s_upper\<close> for the
  bounds \<open>[-2, 2]\<close>, \<open>dbeta = 1\<close> and \<open>d2beta = 16\<close>. On every object with two-element
  bounds and for every sample the method returns four values and raises nothing; off
  the fast path these four values are exactly the tightened ones as computed, crossed or
  not, with no clamping and no repair; and a crossed interval is only ever returned off
  the fast path.
\<close>

theorem crossed_intervals_returned_as_is:
  "actuator_bounds (init [-1, 1] [1, 2] [-3, 3]) \<and>
   compute_scaling_bounds (init [-1, 1] [1, 2] [-3, 3]) (1 / 2) 0 0 = Inr (2, 1, 2, 1) \<and>
   actuator_bounds (init [-1, 1] [-2, 2] [-3, 3]) \<and>
   compute_scaling_bounds (init [-1, 1] [-2, 2] [-3, 3]) 1 16 0 = Inr (0, 1, 0, -14) \<and>
   (has_bound_pairs self \<longrightarrow>
      (\<exists>ds_lower ds_upper d2s_lower d2s_upper.
         compute_scaling_bounds self dbeta d2beta dphi_dot =
           Inr (ds_lower, ds_upper, d2s_lower, d2s_upper) \<and>
         (\<not> commands_within_bounds self dbeta d2beta dphi_dot \<longrightarrow>
            (ds_lower, ds_upper, d2s_lower, d2s_upper) =
              tightened_bounds self dbeta d2beta dphi_dot) \<and>
         (ds_upper < ds_lower \<or> d2s_upper < d2s_lower \<longrightarrow>
            \<not> commands_within_bounds self dbeta d2beta dphi_dot)))"
proof (intro conjI impI)
  let ?A = "init [-1, 1] [1, 2] [-3, 3]" and ?B = "init [-1, 1] [-2, 2] [-3, 3]"
  show "actuator_bounds ?A" "actuator_bounds ?B"
    by (simp_all add: actuator_bounds_def valid_interval_def init_def)
  have p: "has_bound_pairs ?A" "has_bound_pairs ?B"
    by (simp_all add: has_bound_pairs_def init_def)
  have n: "\<not> commands_within_bounds ?A (1 / 2) 0 0" "\<not> commands_within_bounds ?B 1 16 0"
    by (simp_all add: commands_within_bounds_def init_def)
  have "tightened_bounds ?A (1 / 2) 0 0 = (2, 1, 2, 1)"
    by (simp add: tightened_bounds_def init_def)
  with csb_general [OF p(1) n(1)]
  show "compute_scaling_bounds ?A (1 / 2) 0 0 = Inr (2, 1, 2, 1)" by simp
  have "tightened_bounds ?B 1 16 0 = (0, 1, 0, -14)"
    by (simp add: tightened_bounds_def init_def)
  with csb_general [OF p(2) n(2)]
  show "compute_scaling_bounds ?B 1 16 0 = Inr (0, 1, 0, -14)" by simp
next
  assume h: "has_bound_pairs self"
  show "\<exists>ds_lower ds_upper d2s_lower d2s_upper.
         compute_scaling_bounds self dbeta d2beta dphi_dot =
           Inr (ds_lower, ds_upper, d2s_lower, d2s_upper) \<and>
         (\<not> commands_within_bounds self dbeta d2beta dphi_dot \<longrightarrow>
            (ds_lower, ds_upper, d2s_lower, d2s_upper) =
              tightened_bounds self dbeta d2beta dphi_dot) \<and>
         (ds_upper < ds_lower \<or> d2s_upper < d2s_lower \<longrightarrow>
            \<not> commands_within_bounds self dbeta d2beta dphi_dot)"
  proof (cases "commands_within_bounds self dbeta d2beta dphi_dot")
    case True
    with h have "compute_scaling_bounds self dbeta d2beta dphi_dot = Inr (0, 1, 0, 1)"
      by (rule csb_fast)
    with True show ?thesis by simp
  next
    case False
    obtain a b c d where t: "tightened_bounds self dbeta d2beta dphi_dot = (a, b, c, d)"
      by (cases "tightened_bounds self dbeta d2beta dphi_dot") blast
    from h False have "compute_scaling_bounds self dbeta d2beta dphi_dot = Inr (a, b, c, d)"
      by (simp add: csb_general t)
    with False t show ?thesis by simp
  qed
qed

text \<open>
  The theorem at a sample whose \<open>dphi_dot = 4\<close> is not ignored: the wheel's bound
  gives \<open>ds_upper = 3/4\<close>, and \<open>d2s_upper = (2 - 16 * (3/4)\<^sup>2) / 1 = -7\<close> comes back
  below \<open>d2s_lower = 0\<close>.
\<close>

theorem crossed_intervals_returned_as_is_witness:
  "has_bound_pairs (init [-1, 1] [-2, 2] [-3, 3]) \<and>
   \<not> commands_within_bounds (init [-1, 1] [-2, 2] [-3, 3]) 1 16 4 \<and>
   compute_scaling_bounds (init [-1, 1] [-2, 2] [-3, 3]) 1 16 4 = Inr (0, 3 / 4, 0, -7) \<and>
   (-7 :: real) < 0"
proof -
  let ?ts = "init [-1, 1] [-2, 2] [-3, 3]"
  have h: "has_bound_pairs ?ts"
    by (simp add: has_bound_pairs_def init_def)
  have n: "\<not> commands_within_bounds ?ts 1 16 4"
    by (simp add: commands_within_bounds_def init_def)
  have t: "tightened_bounds ?ts 1 16 4 = (0, 3 / 4, 0, -7)"
    by (simp add: tightened_bounds_def init_def power2_eq_square)
  from crossed_intervals_returned_as_is [of ?ts 1 16 4] h n
  have "compute_scaling_bounds ?ts 1 16 4 = Inr (tightened_bounds ?ts 1 16 4)"
    by auto
  with h n t show ?thesis by simp
qed

subsection \<open>Widening the bounds\<close>

text \<open>
  Claim C8 as stated fails. Widening the wheel's bound from \<open>[-2, 2]\<close> to \<open>[-4, 4]\<close>
  raises \<open>ds_upper\<close> from \<open>1/2\<close> to \<open>1\<close> for the sample \<open>(2, 1, 4)\<close>; the
  second-order step works at \<open>s_dot = ds_upper\<close>, so \<open>d2s_upper\<close> falls from
  \<open>(2 - 1/4) / 2 = 7/8\<close> to \<open>(2 - 1) / 2 = 1/2\<close>: the interval \<open>[0, 1/2]\<close> of the
  widened configuration does not contain the interval \<open>[0, 7/8]\<close> of the original one.
\<close>

theorem widening_shrinks_accel_interval:
  "actuator_bounds (init [-1, 1] [-2, 2] [-2, 2]) \<and>
   actuator_bounds (init [-1, 1] [-2, 2] [-4, 4]) \<and>
   bounds_widened (init [-1, 1] [-2, 2] [-2, 2]) (init [-1, 1] [-2, 2] [-4, 4]) \<and>
   compute_scaling_bounds (init [-1, 1] [-2, 2] [-2, 2]) 2 1 4 = Inr (0, 1 / 2, 0, 7 / 8) \<and>
   compute_scaling_bounds (init [-1, 1] [-2, 2] [-4, 4]) 2 1 4 = Inr (0, 1, 0, 1 / 2) \<and>
   \<not> (7 / 8 :: real) \<le> 1 / 2"
proof -
  let ?A = "init [-1, 1] [-2, 2] [-2, 2]" and ?B = "init [-1, 1] [-2, 2] [-4, 4]"
  have v: "actuator_bounds ?A" "actuator_bounds ?B" "bounds_widened ?A ?B"
    by (simp_all add: actuator_bounds_def valid_interval_def bounds_widened_def
        interval_widened_def init_def)
  have p: "has_bound_pairs ?A" "has_bound_pairs ?B"
    by (simp_all add: has_bound_pairs_def init_def)
  have n: "\<not> commands_within_bounds ?A 2 1 4" "\<not> commands_within_bounds ?B 2 1 4"
    by (simp_all add: commands_within_bounds_def init_def)
  have "tightened_bounds ?A 2 1 4 = (0, 1 / 2, 0, 7 / 8)"
    by (simp add: tightened_bounds_def init_def power2_eq_square)
  with csb_general [OF p(1) n(1)]
  have A: "compute_scaling_bounds ?A 2 1 4 = Inr (0, 1 / 2, 0, 7 / 8)" by simp
  have "tightened_bounds ?B 2 1 4 = (0, 1, 0, 1 / 2)"
    by (simp add: tightened_bounds_def init_def)
  with csb_general [OF p(2) n(2)]
  have B: "compute_scaling_bounds ?B 2 1 4 = Inr (0, 1, 0, 1 / 2)" by simp
  from v A B show ?thesis by simp
qed

text \<open>
  Claim C8, amended. With the sample fixed and the second configuration widening the
  first, both calls return, the interval \<open>[ds_lower, ds_upper]\<close> of the widened
  configuration contains the one of the original configuration, and so does the interval
  \<open>[d2s_lower, d2s_upper]\<close> whenever the widened configuration is on the fast path, or
  \<open>dbeta\<close> is ignored, or \<open>d2beta * ds_upper\<^sup>2\<close> is the same under both
  configurations (as when the widening leaves \<open>ds_upper\<close> unchanged, or \<open>d2beta = 0\<close>).
\<close>

theorem widening_monotone_at_fixed_rate:
  assumes "has_bound_pairs A" and "has_bound_pairs B" and "bounds_widened A B"
  shows "\<exists>ds_lower ds_upper d2s_lower d2s_upper ds_lower' ds_upper' d2s_lower' d2s_upper'.
       compute_scaling_bounds A dbeta d2beta dphi_dot =
         Inr (ds_lower, ds_upper, d2s_lower, d2s_upper) \<and>
       compute_scaling_bounds B dbeta d2beta dphi_dot =
         Inr (ds_lower', ds_upper', d2s_lower', d2s_upper') \<and>
       ds_lower' \<le> ds_lower \<and> ds_upper \<le> ds_upper' \<and>
       (commands_within_bounds B dbeta d2beta dphi_dot \<or> \<bar>dbeta\<bar> \<le> 1 / 100 \<or>
        d2beta * ds_upper' ^ 2 = d2beta * ds_upper ^ 2 \<longrightarrow>
          d2s_lower' \<le> d2s_lower \<and> d2s_upper \<le> d2s_upper')"
proof (cases "commands_within_bounds B dbeta d2beta dphi_dot")
  case wB: True
  have B: "compute_scaling_bounds B dbeta d2beta dphi_dot = Inr (0, 1, 0, 1)"
    using assms(2) wB by (rule csb_fast)
  show ?thesis
  proof (cases "commands_within_bounds A dbeta d2beta dphi_dot")
    case True
    with assms(1) have "compute_scaling_bounds A dbeta d2beta dphi_dot = Inr (0, 1, 0, 1)"
      by (rule csb_fast)
    with B show ?thesis by simp
  next
    case False
    obtain a b c d where t: "tightened_bounds A dbeta d2beta dphi_dot = (a, b, c, d)"
      by (cases "tightened_bounds A dbeta d2beta dphi_dot") blast
    from assms(1) False
    have "compute_scaling_bounds A dbeta d2beta dphi_dot = Inr (a, b, c, d)"
      by (simp add: csb_general t)
    with B tightened_range [OF t] show ?thesis by simp
  qed
next
  case nB: False
  with assms(3) have nA: "\<not> commands_within_bounds A dbeta d2beta dphi_dot"
    by (blast dest: cwb_widened)
  obtain a b c d where tA: "tightened_bounds A dbeta d2beta dphi_dot = (a, b, c, d)"
    by (cases "tightened_bounds A dbeta d2beta dphi_dot") blast
  obtain a' b' c' d' where tB: "tightened_bounds B dbeta d2beta dphi_dot = (a', b', c', d')"
    by (cases "tightened_bounds B dbeta d2beta dphi_dot") blast
  have A: "compute_scaling_bounds A dbeta d2beta dphi_dot = Inr (a, b, c, d)"
    using assms(1) nA by (simp add: csb_general tA)
  have B: "compute_scaling_bounds B dbeta d2beta dphi_dot = Inr (a', b', c', d')"
    using assms(2) nB by (simp add: csb_general tB)
  from assms(3) have "interval_widened (beta_2dot_b A) (beta_2dot_b B)"
    and "interval_widened (phi_2dot_b A) (phi_2dot_b B)"
    by (simp_all add: bounds_widened_def)
  from tightened_mono [OF this tA tB] A B nB show ?thesis by simp
qed

text \<open>
  The theorem at a widening of the module's acceleration bound that leaves
  \<open>ds_upper = 1/2\<close> unchanged: \<open>d2s_upper\<close> grows from \<open>7/8\<close> to \<open>1\<close>.
\<close>

theorem widening_monotone_at_fixed_rate_witness:
  "has_bound_pairs (init [-1, 1] [-2, 2] [-2, 2]) \<and>
   has_bound_pairs (init [-1, 1] [-4, 4] [-2, 2]) \<and>
   bounds_widened (init [-1, 1] [-2, 2] [-2, 2]) (init [-1, 1] [-4, 4] [-2, 2]) \<and>
   compute_scaling_bounds (init [-1, 1] [-2, 2] [-2, 2]) 2 1 4 = Inr (0, 1 / 2, 0, 7 / 8) \<and>
   compute_scaling_bounds (init [-1, 1] [-4, 4] [-2, 2]) 2 1 4 = Inr (0, 1 / 2, 0, 1) \<and>
   (1 :: real) * (1 / 2) ^ 2 = 1 * (1 / 2) ^ 2 \<and>
   (0 :: real) \<le> 0 \<and> (1 / 2 :: real) \<le> 1 / 2 \<and> (7 / 8 :: real) \<le> 1"
proof -
  let ?A = "init [-1, 1] [-2, 2] [-2, 2]" and ?B = "init [-1, 1] [-4, 4] [-2, 2]"
  have p: "has_bound_pairs ?A" "has_bound_pairs ?B"
    by (simp_all add: has_bound_pairs_def init_def)
  have w: "bounds_widened ?A ?B"
    by (simp add: bounds_widened_def interval_widened_def init_def)
  have n: "\<not> commands_within_bounds ?A 2 1 4" "\<not> commands_within_bounds ?B 2 1 4"
    by (simp_all add: commands_within_bounds_def init_def)
  have "tightened_bounds ?A 2 1 4 = (0, 1 / 2, 0, 7 / 8)"
    by (simp add: tightened_bounds_def init_def power2_eq_square)
  with csb_general [OF p(1) n(1)]
  have A: "compute_scaling_bounds ?A 2 1 4 = Inr (0, 1 / 2, 0, 7 / 8)" by simp
  have "tightened_bounds ?B 2 1 4 = (0, 1 / 2, 0, 1)"
    by (simp add: tightened_bounds_def init_def power2_eq_square)
  with csb_general [OF p(2) n(2)]
  have B: "compute_scaling_bounds ?B 2 1 4 = Inr (0, 1 / 2, 0, 1)" by simp
  from widening_monotone_at_fixed_rate [OF p w, of 2 1 4] p w A B show ?thesis
    by simp
qed

subsection \<open>The scaling never speeds the motion up\<close>

text \<open>
  Claim C9. On every object with two-element bounds and for every sample,
  \<^verbatim>\<open>compute_scaling_bounds\<close> returns four values with \<open>ds_lower \<ge> 0\<close>,
  \<open>ds_upper \<le> 1\<close>, \<open>d2s_lower \<ge> 0\<close> and \<open>d2s_upper \<le> 1\<close>; so when neither interval
  is crossed, the parameters that \<^verbatim>\<open>compute_scaling_parameters\<close> stores from them lie
  in \<open>[0, 1]\<close>.
\<close>

theorem scaling_never_speeds_up:
  assumes "has_bound_pairs self"
  shows "\<exists>ds_lower ds_upper d2s_lower d2s_upper.
       compute_scaling_bounds self dbeta d2beta dphi_dot =
         Inr (ds_lower, ds_upper, d2s_lower, d2s_upper) \<and>
       0 \<le> ds_lower \<and> ds_upper \<le> 1 \<and> 0 \<le> d2s_lower \<and> d2s_upper \<le> 1 \<and>
       (ds_lower \<le> ds_upper \<and> d2s_lower \<le> d2s_upper \<longrightarrow>
          (\<exists>sDot sDotDot.
             s_dot (compute_scaling_parameters self ds_lower ds_upper d2s_lower d2s_upper) =
               Some sDot \<and>
             s_2dot (compute_scaling_parameters self ds_lower ds_upper d2s_lower d2s_upper) =
               Some sDotDot \<and>
             0 \<le> sDot \<and> sDot \<le> 1 \<and> 0 \<le> sDotDot \<and> sDotDot \<le> 1))"
proof -
  obtain a b c d where r: "compute_scaling_bounds self dbeta d2beta dphi_dot = Inr (a, b, c, d)"
    and range: "0 \<le> a \<and> b \<le> 1 \<and> 0 \<le> c \<and> d \<le> 1"
  proof (cases "commands_within_bounds self dbeta d2beta dphi_dot")
    case True
    with assms have "compute_scaling_bounds self dbeta d2beta dphi_dot = Inr (0, 1, 0, 1)"
      by (rule csb_fast)
    then show ?thesis using that by simp
  next
    case False
    obtain a b c d where t: "tightened_bounds self dbeta d2beta dphi_dot = (a, b, c, d)"
      by (cases "tightened_bounds self dbeta d2beta dphi_dot") blast
    from assms False have "compute_scaling_bounds self dbeta d2beta dphi_dot = Inr (a, b, c, d)"
      by (simp add: csb_general t)
    with tightened_range [OF t] show ?thesis using that by blast
  qed
  have "a \<le> b \<and> c \<le> d \<longrightarrow>
          (\<exists>sDot sDotDot.
             s_dot (compute_scaling_parameters self a b c d) = Some sDot \<and>
             s_2dot (compute_scaling_parameters self a b c d) = Some sDotDot \<and>
             0 \<le> sDot \<and> sDot \<le> 1 \<and> 0 \<le> sDotDot \<and> sDotDot \<le> 1)"
    using range by (simp add: compute_scaling_parameters_def)
  with r range show ?thesis by blast
qed

text \<open>The theorem at the worked scenario.\<close>

theorem scaling_never_speeds_up_witness:
  "has_bound_pairs (init [-1, 1] [-2, 2] [-3, 3]) \<and>
   (\<exists>ds_lower ds_upper d2s_lower d2s_upper.
      compute_scaling_bounds (init [-1, 1] [-2, 2] [-3, 3]) 4 0 0 =
        Inr (ds_lower, ds_upper, d2s_lower, d2s_upper) \<and>
      0 \<le> ds_lower \<and> ds_upper \<le> 1 \<and> 0 \<le> d2s_lower \<and> d2s_upper \<le> 1)"
proof -
  have h: "has_bound_pairs (init [-1, 1] [-2, 2] [-3, 3])"
    by (simp add: has_bound_pairs_def init_def)
  from scaling_never_speeds_up [OF h, of 4 0 0] h show ?thesis
    by blast
qed

subsection \<open>Scaling before any selection\<close>

text \<open>
  Claim C10. On a freshly constructed object \<^verbatim>\<open>scale_motion\<close> raises
  AttributeError. After any sequence of method calls on a fresh object,
  \<^verbatim>\<open>scale_motion\<close> raises exactly when the sequence has no call of
  \<^verbatim>\<open>compute_scaling_parameters\<close>.
\<close>

theorem scale_motion_before_selection_fails:
  "scale_motion (init beta_dot_bounds beta_2dot_bounds phi_2dot_bounds) dbeta d2beta dphi_dot =
     Inl AttributeError \<and>
   ((\<exists>e. scale_motion
           (foldl after_call (init beta_dot_bounds beta_2dot_bounds phi_2dot_bounds) calls)
           dbeta d2beta dphi_dot = Inl e)
    \<longleftrightarrow> \<not> list_ex is_selection calls)"
proof
  show "scale_motion (init beta_dot_bounds beta_2dot_bounds phi_2dot_bounds) dbeta d2beta
      dphi_dot = Inl AttributeError"
    by (simp add: scale_motion_def init_def)
next
  have "s_dot (init beta_dot_bounds beta_2dot_bounds phi_2dot_bounds) = None"
    and "s_2dot (init beta_dot_bounds beta_2dot_bounds phi_2dot_bounds) = None"
    by (simp_all add: init_def)
  then show "(\<exists>e. scale_motion
           (foldl after_call (init beta_dot_bounds beta_2dot_bounds phi_2dot_bounds) calls)
           dbeta d2beta dphi_dot = Inl e)
    \<longleftrightarrow> \<not> list_ex is_selection calls"
    unfolding scale_motion_raises by (simp add: stored_after_calls)
qed

text \<open>
  The theorem on a fresh object, after two calls that store nothing, and after a
  selection.
\<close>

theorem scale_motion_before_selection_fails_witness:
  "scale_motion (init [-1, 1] [-2, 2] [-3, 3]) 3 1 4 = Inl AttributeError \<and>
   scale_motion
     (foldl after_call (init [-1, 1] [-2, 2] [-3, 3])
        [Compute_scaling_bounds 3 1 4, Scale_motion 3 1 4]) 3 1 4 = Inl AttributeError \<and>
   scale_motion
     (foldl after_call (init [-1, 1] [-2, 2] [-3, 3])
        [Compute_scaling_bounds 3 1 4, Compute_scaling_parameters 0 (1 / 2) 0 (1 / 4)]) 4 8 2 =
     Inr (2, 3, 1)"
proof -
  let ?ts = "init [-1, 1] [-2, 2] [-3, 3]"
  from scale_motion_before_selection_fails [of "[-1, 1]" "[-2, 2]" "[-3, 3]" 3 1 4
      "[Compute_scaling_bounds 3 1 4, Scale_motion 3 1 4]"]
  have "scale_motion ?ts 3 1 4 = Inl AttributeError"
    and "\<exists>e. scale_motion
      (foldl after_call ?ts [Compute_scaling_bounds 3 1 4, Scale_motion 3 1 4]) 3 1 4 = Inl e"
    by simp_all
  then show ?thesis
    by (simp add: scale_motion_def compute_scaling_parameters_def init_def power2_eq_square)
qed

end
